theory Spec2Isabelle
  imports Complex_Main "HOL-Library.Sublist"
begin

section \<open>The XML-RPC message encoder of \<^verbatim>\<open>src/lib/xmlrpc-message.js\<close>\<close>

text \<open>
  The encoder turns a method name and a list of JavaScript values into the text of an
  XML-RPC document. This theory embeds its functions as HOL functions over a datatype of
  JavaScript values. A JavaScript exception is the \<open>Inl\<close> branch of a sum; the
  exception the encoder meets in its own statements is a \<^verbatim>\<open>TypeError\<close> of the runtime
  (a property read on \<^verbatim>\<open>null\<close>, a symbol joined to a string, a call of something that is
  no function).

  \<open>NotModelled\<close> is no exception of the runtime. It marks the two places where the
  encoder hands control to something this theory does not embed: a getter that an object
  passing for a Date brings along as a function of its own, and the conversion of the
  \<^verbatim>\<open>length\<close> of an object passing for an Array when that length is not plainly nothing.
  No property below is about these places.
\<close>

datatype error = TypeError | NotModelled

subsection \<open>Numbers of the runtime\<close>

text \<open>
  A JavaScript Number is \<^verbatim>\<open>NaN\<close>, an infinity, or a finite double. A finite double is
  represented by the decimal fraction that the runtime prints for it: \<open>Dec m k\<close> stands
  for \<open>m / 10 ^ k\<close>. Every number the encoder computes itself (calendar fields, minutes
  of an offset, seconds with milliseconds) has at most sixteen significant digits and is
  exact in this representation. The two zeros of a double are not told apart: the encoder
  prints, compares and rounds both in the same way.
\<close>

datatype number = NaN | PosInf | NegInf | Dec int nat

fun num_add :: "number \<Rightarrow> number \<Rightarrow> number" where
  "num_add (Dec a j) (Dec b k) = Dec (a * 10 ^ k + b * 10 ^ j) (j + k)"
| "num_add NaN _ = NaN"
| "num_add _ NaN = NaN"
| "num_add PosInf NegInf = NaN"
| "num_add NegInf PosInf = NaN"
| "num_add PosInf _ = PosInf"
| "num_add _ PosInf = PosInf"
| "num_add NegInf _ = NegInf"
| "num_add _ NegInf = NegInf"

fun num_sign :: "number \<Rightarrow> int" where
  "num_sign (Dec a j) = sgn a"
| "num_sign PosInf = 1"
| "num_sign NegInf = - 1"
| "num_sign NaN = 0"

fun num_mul :: "number \<Rightarrow> number \<Rightarrow> number" where
  "num_mul (Dec a j) (Dec b k) = Dec (a * b) (j + k)"
| "num_mul NaN _ = NaN"
| "num_mul _ NaN = NaN"
| "num_mul x y =
     (if num_sign x * num_sign y = 0 then NaN
      else if num_sign x * num_sign y > 0 then PosInf else NegInf)"

text \<open>The comparison \<^verbatim>\<open>a < b\<close> of two Numbers: false when either is \<^verbatim>\<open>NaN\<close>.\<close>

fun num_lt :: "number \<Rightarrow> number \<Rightarrow> bool" where
  "num_lt (Dec a j) (Dec b k) = (a * 10 ^ k < b * 10 ^ j)"
| "num_lt NaN _ = False"
| "num_lt _ NaN = False"
| "num_lt NegInf NegInf = False"
| "num_lt NegInf _ = True"
| "num_lt _ NegInf = False"
| "num_lt PosInf _ = False"
| "num_lt _ PosInf = True"

text \<open>The comparison \<^verbatim>\<open>a === b\<close> of two Numbers: \<^verbatim>\<open>NaN\<close> equals nothing.\<close>

fun strict_equal :: "number \<Rightarrow> number \<Rightarrow> bool" where
  "strict_equal (Dec a j) (Dec b k) = (a * 10 ^ k = b * 10 ^ j)"
| "strict_equal PosInf PosInf = True"
| "strict_equal NegInf NegInf = True"
| "strict_equal _ _ = False"

text \<open>
  \<^verbatim>\<open>Math.round(x)\<close> is the integer nearest to \<open>x\<close>, a tie going up: \<open>\<lfloor>x + 1/2\<rfloor>\<close>.
  \<^verbatim>\<open>NaN\<close> and the infinities are returned as they are.
\<close>

fun Math_round :: "number \<Rightarrow> number" where
  "Math_round (Dec m k) = Dec ((2 * m + 10 ^ k) div (2 * 10 ^ k)) 0"
| "Math_round x = x"

subsection \<open>Numbers to text and back\<close>

definition digit_char :: "nat \<Rightarrow> char" where
  "digit_char d = ''0123456789'' ! (d mod 10)"

function show_nat :: "nat \<Rightarrow> string" where
  "show_nat n = (if n < 10 then [digit_char n] else show_nat (n div 10) @ [digit_char (n mod 10)])"
  by pat_completeness auto
termination
  by (relation "measure id") auto

declare show_nat.simps [simp del]

definition show_int :: "int \<Rightarrow> string" where
  "show_int i = (if i < 0 then ''-'' @ show_nat (nat (- i)) else show_nat (nat i))"

text \<open>Trailing zeros of the fraction carry no value: \<open>30450 / 10^3\<close> is \<open>3045 / 10^2\<close>.\<close>

fun norm_dec :: "nat \<Rightarrow> nat \<Rightarrow> nat \<times> nat" where
  "norm_dec m 0 = (m, 0)"
| "norm_dec m (Suc k) = (if m mod 10 = 0 then norm_dec (m div 10) k else (m, Suc k))"

definition strip_zeros :: "string \<Rightarrow> string" where
  "strip_zeros ds = rev (dropWhile (\<lambda>c. c = CHR ''0'') (rev ds))"

definition exp_digits :: "string \<Rightarrow> string" where
  "exp_digits ds = (case ds of [] \<Rightarrow> [] | [d] \<Rightarrow> [d] | d # r \<Rightarrow> d # ''.'' @ r)"

text \<open>
  \<^verbatim>\<open>Number::toString\<close> of a positive finite number \<open>m / 10 ^ k\<close>: the digits of the
  whole part, a point and the digits of the fraction from \<open>10\<^sup>-\<^sup>6\<close> up to \<open>10\<^sup>2\<^sup>1\<close>, the
  exponent form outside.
\<close>

definition pos_toString :: "nat \<Rightarrow> nat \<Rightarrow> string" where
  "pos_toString m k =
     (case norm_dec m k of
        (s, j) \<Rightarrow>
          if j = 0 then
            (let ds = show_nat s in
             if length ds \<le> 21 then ds
             else exp_digits (strip_zeros ds) @ ''e+'' @ show_nat (length ds - 1))
          else
            (let ip = s div 10 ^ j; fd = show_nat (s mod 10 ^ j); z = j - length fd in
             if 0 < ip then show_nat ip @ ''.'' @ replicate z (CHR ''0'') @ fd
             else if z < 6 then ''0.'' @ replicate z (CHR ''0'') @ fd
             else exp_digits fd @ ''e-'' @ show_nat (z + 1)))"

fun Number_toString :: "number \<Rightarrow> string" where
  "Number_toString NaN = ''NaN''"
| "Number_toString PosInf = ''Infinity''"
| "Number_toString NegInf = ''-Infinity''"
| "Number_toString (Dec m k) =
     (if m = 0 then ''0''
      else if m < 0 then ''-'' @ pos_toString (nat (- m)) k
      else pos_toString (nat m) k)"

definition is_digit :: "char \<Rightarrow> bool" where
  "is_digit c = (c \<in> set ''0123456789'')"

definition digit_val :: "char \<Rightarrow> nat" where
  "digit_val c = of_char c - 48"

definition digits_val :: "string \<Rightarrow> nat" where
  "digits_val ds = foldl (\<lambda>a c. 10 * a + digit_val c) 0 ds"

text \<open>
  \<^verbatim>\<open>Number(s)\<close> of a string. The encoder applies it to the two-digit groups of an offset
  and to the seconds text \<^verbatim>\<open>ss.mmm\<close> (or \<^verbatim>\<open>NaN.NaN\<close> for an invalid date), so the
  model reads unsigned decimal literals without exponent and gives \<^verbatim>\<open>NaN\<close> for the rest.
\<close>

definition Number :: "string \<Rightarrow> number" where
  "Number s =
     (let ip = takeWhile is_digit s; rest = dropWhile is_digit s in
      if rest = [] then Dec (int (digits_val ip)) 0
      else if hd rest = CHR ''.'' \<and> list_all is_digit (tl rest) \<and> (ip \<noteq> [] \<or> tl rest \<noteq> [])
      then Dec (int (digits_val (ip @ tl rest))) (length (tl rest))
      else NaN)"

subsection \<open>Dates of the runtime\<close>

text \<open>
  A \<^verbatim>\<open>Date\<close> object holds a time value: the milliseconds since 1970-01-01T00:00:00Z, or
  \<^verbatim>\<open>NaN\<close> for an invalid date (\<open>None\<close>). A valid time value is an integer of absolute
  value at most \<open>8.64 \<times> 10\<^sup>1\<^sup>5\<close>.
\<close>

type_synonym date = "int option"

definition valid_time :: "int \<Rightarrow> bool" where
  "valid_time t = (\<bar>t\<bar> \<le> 8640000000000000)"

text \<open>\<^verbatim>\<open>Number(date)\<close>: the time value.\<close>

definition Number_of_date :: "date \<Rightarrow> number" where
  "Number_of_date d = (case d of None \<Rightarrow> NaN | Some t \<Rightarrow> Dec t 0)"

text \<open>\<^verbatim>\<open>new Date(x)\<close> for a Number: the time value cut to an integer, invalid out of range.\<close>

definition new_Date :: "number \<Rightarrow> date" where
  "new_Date x =
     (case x of
        Dec m k \<Rightarrow>
          (let t = sgn m * (\<bar>m\<bar> div 10 ^ k) in if valid_time t then Some t else None)
      | _ \<Rightarrow> None)"

text \<open>
  The calendar fields of a time value in UTC. The year, month and day of a day number
  follow from the 400-year cycle of the Gregorian calendar (146097 days), counted from
  0000-03-01 so that the leap day closes a year.
\<close>

definition civil :: "int \<Rightarrow> int \<times> int \<times> int" where
  "civil t =
     (let z = t div 86400000 + 719468;
          era = z div 146097;
          doe = z - era * 146097;
          yoe = (doe - doe div 1460 + doe div 36524 - doe div 146096) div 365;
          doy = doe - (365 * yoe + yoe div 4 - yoe div 100);
          mp = (5 * doy + 2) div 153;
          d = doy - (153 * mp + 2) div 5 + 1;
          m = (if mp < 10 then mp + 3 else mp - 9);
          y = yoe + era * 400 + (if m \<le> 2 then 1 else 0)
      in (y, m, d))"

definition field :: "(int \<Rightarrow> int) \<Rightarrow> date \<Rightarrow> number" where
  "field f d = (case d of None \<Rightarrow> NaN | Some t \<Rightarrow> Dec (f t) 0)"

definition getUTCFullYear :: "date \<Rightarrow> number" where
  "getUTCFullYear = field (\<lambda>t. fst (civil t))"

definition getUTCMonth :: "date \<Rightarrow> number" where
  "getUTCMonth = field (\<lambda>t. fst (snd (civil t)) - 1)"

definition getUTCDate :: "date \<Rightarrow> number" where
  "getUTCDate = field (\<lambda>t. snd (snd (civil t)))"

definition getUTCHours :: "date \<Rightarrow> number" where
  "getUTCHours = field (\<lambda>t. (t div 3600000) mod 24)"

definition getUTCMinutes :: "date \<Rightarrow> number" where
  "getUTCMinutes = field (\<lambda>t. (t div 60000) mod 60)"

definition getUTCSeconds :: "date \<Rightarrow> number" where
  "getUTCSeconds = field (\<lambda>t. (t div 1000) mod 60)"

definition getUTCMilliseconds :: "date \<Rightarrow> number" where
  "getUTCMilliseconds = field (\<lambda>t. t mod 1000)"

subsection \<open>The date formatter\<close>

text \<open>
  \<^verbatim>\<open>offset.match(/([-+])([0-9]{2}):([0-9]{2})/)\<close>: the leftmost place of the text where
  a sign, two digits, a colon and two digits follow one another, with its three groups;
  \<open>None\<close> is the \<^verbatim>\<open>null\<close> of a text without such a place.
\<close>

fun match_here :: "string \<Rightarrow> (string \<times> string \<times> string) option" where
  "match_here (s # h1 # h2 # c # m1 # m2 # _) =
     (if (s = CHR ''-'' \<or> s = CHR ''+'') \<and> is_digit h1 \<and> is_digit h2 \<and> c = CHR '':''
         \<and> is_digit m1 \<and> is_digit m2
      then Some ([s], [h1, h2], [m1, m2]) else None)"
| "match_here _ = None"

fun offset_match :: "string \<Rightarrow> (string \<times> string \<times> string) option" where
  "offset_match [] = None"
| "offset_match (c # cs) =
     (case match_here (c # cs) of Some d \<Rightarrow> Some d | None \<Rightarrow> offset_match cs)"

text \<open>The inner function \<^verbatim>\<open>zeropad\<close>: \<^verbatim>\<open>(num < 10 ? '0' : '') + num\<close>.\<close>

definition zeropad :: "number \<Rightarrow> string" where
  "zeropad num = (if num_lt num (Dec 10 0) then ''0'' else []) @ Number_toString num"

text \<open>
  The second half of \<^verbatim>\<open>dateToISO8601\<close>, from \<^verbatim>\<open>let str = ''\<close> to the end: the text of
  the fields of \<open>date\<close> down to the level \<open>format\<close>, and the zone designator \<open>offset\<close>
  from level 4 on.
\<close>

definition format_fields :: "date \<Rightarrow> number \<Rightarrow> string \<Rightarrow> string" where
  "format_fields date format offset =
     (let str = [];
          str = str @ Number_toString (getUTCFullYear date);
          str = (if num_lt (Dec 1 0) format
                 then str @ ''-'' @ zeropad (num_add (getUTCMonth date) (Dec 1 0)) else str);
          str = (if num_lt (Dec 2 0) format
                 then str @ ''-'' @ zeropad (getUTCDate date) else str);
          str = (if num_lt (Dec 3 0) format
                 then str @ ''T'' @ zeropad (getUTCHours date) @ '':''
                          @ zeropad (getUTCMinutes date)
                 else str);
          str = (if num_lt (Dec 5 0) format
                 then (let secs = Number (Number_toString (getUTCSeconds date) @ ''.''
                                    @ (if num_lt (getUTCMilliseconds date) (Dec 100 0)
                                       then ''0'' else [])
                                    @ zeropad (getUTCMilliseconds date))
                       in str @ '':'' @ zeropad secs)
                 else if num_lt (Dec 4 0) format
                 then str @ '':'' @ zeropad (getUTCSeconds date)
                 else str);
          str = (if num_lt (Dec 3 0) format then str @ offset else str)
      in str)"

text \<open>
  The arguments \<open>format\<close> and \<open>offset\<close> may be left out (\<open>None\<close>). \<^verbatim>\<open>!format\<close> holds
  for a missing level, for \<open>0\<close> and for \<^verbatim>\<open>NaN\<close>; \<^verbatim>\<open>!offset\<close> holds for a missing and
  for an empty text.
\<close>

definition not_format :: "number option \<Rightarrow> bool" where
  "not_format format =
     (case format of None \<Rightarrow> True | Some NaN \<Rightarrow> True | Some (Dec m k) \<Rightarrow> m = 0
      | Some _ \<Rightarrow> False)"

definition not_string :: "string option \<Rightarrow> bool" where
  "not_string s = (case s of None \<Rightarrow> True | Some t \<Rightarrow> t = [])"

definition dateToISO8601 :: "date \<Rightarrow> number option \<Rightarrow> string option \<Rightarrow> error + string" where
  "dateToISO8601 dateIn format offset =
     (let format = (if not_format format then Dec 6 0 else the format) in
      if not_string offset then Inr (format_fields dateIn format ''Z'')
      else
        (case offset_match (the offset) of
           None \<Rightarrow> Inl TypeError
         | Some (d1, d2, d3) \<Rightarrow>
             (let offsetnum = num_add (num_mul (Number d2) (Dec 60 0)) (Number d3);
                  offsetnum = num_mul offsetnum (if d1 = ''-'' then Dec (- 1) 0 else Dec 1 0);
                  date = new_Date (num_add (Number_of_date dateIn)
                                     (num_mul offsetnum (Dec 60000 0)))
              in Inr (format_fields date format (the offset)))))"

subsection \<open>Values and their classification\<close>

text \<open>
  The values of JavaScript as far as the encoder tells them apart.

  A function carries which function it is, as far as the encoder asks (the test
  \<^verbatim>\<open>o.constructor === Date\<close> and the one for \<^verbatim>\<open>Array\<close> compare functions by identity),
  and the text that joining it to a string gives.

  \<open>JDate\<close> is a Date object and \<open>JArray\<close> an Array, each with the \<^verbatim>\<open>constructor\<close> it
  inherits; a hole of an array reads as \<^verbatim>\<open>undefined\<close>. \<open>JObject\<close> is any other object: the
  list of its enumerable keys, in the order of \<^verbatim>\<open>for ... in\<close>, each with its value. Its
  properties are these members and what every object inherits, so \<^verbatim>\<open>{constructor: Date}\<close>
  is the object with the one member \<^verbatim>\<open>constructor\<close> whose value is the function Date.
  A Date or an Array whose \<^verbatim>\<open>constructor\<close> has been overwritten, and an object that
  inherits Date or Array as its \<^verbatim>\<open>constructor\<close> without being one, is read by the encoder
  like an object of this third kind with that member. Properties are data: an object with
  accessors, or a proxy, has no term here.

  Values are finite trees: a value that contains itself has no term here. The limits of
  the runtime, on the depth of its call stack and on the length of a string, are not part
  of the functions below: past them the runtime throws a \<^verbatim>\<open>RangeError\<close> where the
  functions here return a text.
\<close>

datatype fident = DateCtor | ArrayCtor | OtherFunction

datatype jsval =
    JUndefined
  | JNull
  | JBool bool
  | JNumber (the_number: number)
  | JBigInt int
  | JString string
  | JSymbol
  | JFunction fident string
  | JDate (the_date: date)
  | JArray (elements: "jsval list")
  | JObject (members: "(string \<times> jsval) list")

fun typeof :: "jsval \<Rightarrow> string" where
  "typeof JUndefined = ''undefined''"
| "typeof JNull = ''object''"
| "typeof (JBool b) = ''boolean''"
| "typeof (JNumber n) = ''number''"
| "typeof (JBigInt i) = ''bigint''"
| "typeof (JString s) = ''string''"
| "typeof JSymbol = ''symbol''"
| "typeof (JFunction f src) = ''function''"
| "typeof (JDate d) = ''object''"
| "typeof (JArray xs) = ''object''"
| "typeof (JObject ms) = ''object''"

text \<open>
  \<^verbatim>\<open>o.constructor\<close>, as far as the encoder looks at it: which of the functions Date and
  Array it is, or that it is something else. An object reads its own member of that name
  if it has one, and otherwise what it inherits; reading it on \<^verbatim>\<open>null\<close> or
  \<^verbatim>\<open>undefined\<close> throws.
\<close>

definition object_constructor :: "(string \<times> jsval) list \<Rightarrow> fident" where
  "object_constructor ms =
     (case map_of ms ''constructor'' of Some (JFunction f src) \<Rightarrow> f | _ \<Rightarrow> OtherFunction)"

fun constructor_of :: "jsval \<Rightarrow> error + fident" where
  "constructor_of JUndefined = Inl TypeError"
| "constructor_of JNull = Inl TypeError"
| "constructor_of (JDate d) = Inr DateCtor"
| "constructor_of (JArray xs) = Inr ArrayCtor"
| "constructor_of (JObject ms) = Inr (object_constructor ms)"
| "constructor_of v = Inr OtherFunction"

text \<open>
  \<^verbatim>\<open>dataTypeOf\<close>: the result of \<^verbatim>\<open>typeof\<close>, refined for numbers by the rounding test
  and for objects by \<^verbatim>\<open>o.constructor\<close>. The \<^verbatim>\<open>typeof\<close> of \<^verbatim>\<open>null\<close> is \<^verbatim>\<open>'object'\<close>,
  so its \<^verbatim>\<open>constructor\<close> is read, and that throws.
\<close>

definition dataTypeOf :: "jsval \<Rightarrow> error + string" where
  "dataTypeOf v =
     (let type = typeof v in
      if type = ''number'' then
        Inr (if strict_equal (Math_round (the_number v)) (the_number v) then ''i4''
             else ''double'')
      else if type = ''object'' then
        (case constructor_of v of
           Inl e \<Rightarrow> Inl e
         | Inr c \<Rightarrow>
             Inr (if c = DateCtor then ''date'' else if c = ArrayCtor then ''array''
                  else ''struct''))
      else Inr type)"

subsection \<open>Rendering a value\<close>

text \<open>
  Joining a value that is not an object to a string (\<^verbatim>\<open>'' + data\<close>); a symbol
  refuses. \<^verbatim>\<open>toValueXML\<close> is never given an object.
\<close>

fun ToString :: "jsval \<Rightarrow> error + string" where
  "ToString JUndefined = Inr ''undefined''"
| "ToString JNull = Inr ''null''"
| "ToString (JBool b) = Inr (if b then ''true'' else ''false'')"
| "ToString (JNumber n) = Inr (Number_toString n)"
| "ToString (JBigInt i) = Inr (show_int i)"
| "ToString (JString s) = Inr s"
| "ToString JSymbol = Inl TypeError"
| "ToString (JFunction f src) = Inr src"

definition toValueXML :: "string \<Rightarrow> jsval \<Rightarrow> error + string" where
  "toValueXML type data =
     (case ToString data of
        Inl e \<Rightarrow> Inl e
      | Inr s \<Rightarrow> Inr (''<'' @ type @ ''>'' @ s @ ''</'' @ type @ ''>''))"

definition toBooleanXML :: "jsval \<Rightarrow> string" where
  "toBooleanXML data =
     (let val = (if data = JBool True then Dec 1 0 else Dec 0 0)
      in ''<boolean>'' @ Number_toString val @ ''</boolean>'')"

definition toDateXML :: "date \<Rightarrow> error + string" where
  "toDateXML data =
     (case dateToISO8601 data None None of
        Inl e \<Rightarrow> Inl e
      | Inr s \<Rightarrow> Inr (''<dateTime.iso8601>'' @ s @ ''</dateTime.iso8601>''))"

text \<open>
  \<^verbatim>\<open>toDateXML\<close> of an object that is no Date but has Date as its \<^verbatim>\<open>constructor\<close>:
  the first statement of \<^verbatim>\<open>dateToISO8601\<close> that reads the date calls
  \<^verbatim>\<open>date.getUTCFullYear()\<close>. The object has no such method unless it brings one as a
  member; calling a missing member, or one that is no function, throws.
\<close>

definition toDateXML_object :: "(string \<times> jsval) list \<Rightarrow> error + string" where
  "toDateXML_object data =
     (case map_of data ''getUTCFullYear'' of
        Some (JFunction f src) \<Rightarrow> Inl NotModelled
      | _ \<Rightarrow> Inl TypeError)"

text \<open>
  \<^verbatim>\<open>toArrayXML\<close> of an object that is no Array but has Array as its \<^verbatim>\<open>constructor\<close>:
  the loop runs while \<^verbatim>\<open>i < data.length\<close>. With no member \<^verbatim>\<open>length\<close>, or one that
  converts to a number that 0 is not below, the loop does not run once and the data
  block is empty; comparing with a symbol throws.
\<close>

definition toArrayXML_object :: "(string \<times> jsval) list \<Rightarrow> error + string" where
  "toArrayXML_object data =
     (let none = Inr (''<array><data>\<newline>'' @ ''</data></array>\<newline>'') in
      case map_of data ''length'' of
        None \<Rightarrow> none
      | Some JUndefined \<Rightarrow> none
      | Some JNull \<Rightarrow> none
      | Some (JBool b) \<Rightarrow> if b then Inl NotModelled else none
      | Some (JNumber n) \<Rightarrow> if num_lt (Dec 0 0) n then Inl NotModelled else none
      | Some (JBigInt i) \<Rightarrow> if 0 < i then Inl NotModelled else none
      | Some JSymbol \<Rightarrow> Inl TypeError
      | Some _ \<Rightarrow> Inl NotModelled)"

text \<open>
  \<^verbatim>\<open>getParamXML\<close> with the loops of \<^verbatim>\<open>toArrayXML\<close> and \<^verbatim>\<open>toStructXML\<close>; each loop
  carries the text built so far and stops at the first exception. The equations are
  given per shape of value; \<open>getParamXML_dispatch\<close> below shows that they are the
  \<^verbatim>\<open>switch\<close> on the result of \<^verbatim>\<open>dataTypeOf\<close>.
\<close>

fun getParamXML :: "jsval \<Rightarrow> error + string"
and toArrayXML_loop :: "jsval list \<Rightarrow> string \<Rightarrow> error + string"
and toStructXML_loop :: "(string \<times> jsval) list \<Rightarrow> string \<Rightarrow> error + string"
where
  "getParamXML (JDate d) = toDateXML d"
| "getParamXML (JArray data) =
     (case toArrayXML_loop data ''<array><data>\<newline>'' of
        Inl e \<Rightarrow> Inl e
      | Inr xml \<Rightarrow> Inr (xml @ ''</data></array>\<newline>''))"
| "getParamXML (JObject data) =
     (case object_constructor data of
        DateCtor \<Rightarrow> toDateXML_object data
      | ArrayCtor \<Rightarrow> toArrayXML_object data
      | OtherFunction \<Rightarrow>
          (case toStructXML_loop data ''<struct>\<newline>'' of
             Inl e \<Rightarrow> Inl e
           | Inr xml \<Rightarrow> Inr (xml @ ''</struct>\<newline>'')))"
| "getParamXML (JBool b) = Inr (toBooleanXML (JBool b))"
| "getParamXML JNull = Inl TypeError"
| "getParamXML data =
     (case dataTypeOf data of Inl e \<Rightarrow> Inl e | Inr type \<Rightarrow> toValueXML type data)"
| "toArrayXML_loop [] xml = Inr xml"
| "toArrayXML_loop (x # xs) xml =
     (case getParamXML x of
        Inl e \<Rightarrow> Inl e
      | Inr s \<Rightarrow> toArrayXML_loop xs (xml @ ''<value>'' @ s @ ''</value>\<newline>''))"
| "toStructXML_loop [] xml = Inr xml"
| "toStructXML_loop ((i, x) # ms) xml =
     (case getParamXML x of
        Inl e \<Rightarrow> Inl e
      | Inr s \<Rightarrow>
          toStructXML_loop ms
            (xml @ ''<member>\<newline>'' @ ''<name>'' @ i @ ''</name>\<newline>''
                 @ ''<value>'' @ s @ ''</value>\<newline>'' @ ''</member>\<newline>''))"

definition toArrayXML :: "jsval list \<Rightarrow> error + string" where
  "toArrayXML data = getParamXML (JArray data)"

definition toStructXML :: "(string \<times> jsval) list \<Rightarrow> error + string" where
  "toStructXML data =
     (case toStructXML_loop data ''<struct>\<newline>'' of
        Inl e \<Rightarrow> Inl e
      | Inr xml \<Rightarrow> Inr (xml @ ''</struct>\<newline>''))"

text \<open>
  \<^verbatim>\<open>toDateXML\<close> and \<^verbatim>\<open>toArrayXML\<close> as \<^verbatim>\<open>getParamXML\<close> calls them, on the value
  classified \<^verbatim>\<open>date\<close> or \<^verbatim>\<open>array\<close>: a Date or an Array, or an object passing for one.
\<close>

fun toDateXML_value :: "jsval \<Rightarrow> error + string" where
  "toDateXML_value (JDate d) = toDateXML d"
| "toDateXML_value (JObject data) = toDateXML_object data"

fun toArrayXML_value :: "jsval \<Rightarrow> error + string" where
  "toArrayXML_value (JArray data) = toArrayXML data"
| "toArrayXML_value (JObject data) = toArrayXML_object data"

subsection \<open>The message and its document\<close>

text \<open>
  The object built by \<^verbatim>\<open>new XMLRPCMessage(methodname, params)\<close>. The constructor sets
  \<^verbatim>\<open>method\<close> and \<^verbatim>\<open>params\<close> and leaves \<^verbatim>\<open>is_fault\<close> unset; the fields are public,
  and \<^verbatim>\<open>xml\<close> reads all three, so a caller may clear \<^verbatim>\<open>method\<close> (\<open>None\<close>) or set
  \<^verbatim>\<open>is_fault\<close> before rendering. The field \<^verbatim>\<open>method\<close> is called \<open>method_name\<close>
  here, its own name being a keyword of the proof language.
\<close>

record message =
  method_name :: "string option"
  params :: "jsval list"
  is_fault :: bool


definition xml_decl :: string where
  \<open>xml_decl = ''<?xml version="1.0"?>\<newline>''\<close>

fun xml_loop :: "bool \<Rightarrow> jsval list \<Rightarrow> string \<Rightarrow> error + string" where
  "xml_loop fault [] xml = Inr xml"
| "xml_loop fault (p # ps) xml =
     (let xml = (if \<not> fault then xml @ ''<param>\<newline>'' else xml) in
      case getParamXML p of
        Inl e \<Rightarrow> Inl e
      | Inr s \<Rightarrow>
          (let xml = xml @ ''<value>'' @ s @ ''</value>\<newline>'';
               xml = (if \<not> fault then xml @ ''</param>\<newline>'' else xml)
           in xml_loop fault ps xml))"

definition xml :: "message \<Rightarrow> error + string" where
  "xml this =
     (let xml = xml_decl;
          xml = (if \<not> not_string (method_name this)
                 then xml @ ''<methodCall>\<newline>''
                          @ ''<methodName>'' @ the (method_name this) @ ''</methodName>\<newline>''
                 else xml @ ''<methodResponse>\<newline>'');
          xml = (if \<not> is_fault this then xml @ ''<params>\<newline>''
                 else xml @ ''<fault>\<newline>'')
      in case xml_loop (is_fault this) (params this) xml of
           Inl e \<Rightarrow> Inl e
         | Inr xml \<Rightarrow>
             (let xml = (if \<not> is_fault this then xml @ ''</params>\<newline>''
                         else xml @ ''</fault>\<newline>'');
                  xml = (if \<not> not_string (method_name this) then xml @ ''</methodCall>''
                         else xml @ ''</methodResponse>'')
              in Inr xml))"

subsection \<open>Notions used to state the properties\<close>

text \<open>
  The body of a document whose parameters render to the texts \<open>ss\<close>: the fault
  envelope around the bare values, or the params envelope around one \<^verbatim>\<open><param>\<close>
  per value.
\<close>

definition body_text :: "bool \<Rightarrow> string list \<Rightarrow> string" where
  "body_text fault ss =
     (if fault
      then ''<fault>\<newline>'' @ concat (map (\<lambda>s. ''<value>'' @ s @ ''</value>\<newline>'') ss) @ ''</fault>\<newline>''
      else ''<params>\<newline>''
           @ concat (map (\<lambda>s. ''<param>\<newline>'' @ ''<value>'' @ s @ ''</value>\<newline>'' @ ''</param>\<newline>'') ss)
           @ ''</params>\<newline>'')"






text \<open>
  The pattern \<^verbatim>\<open>ss.ddZ\<close> at the end of a text: a point, two digits and the designator
  \<^verbatim>\<open>Z\<close>.
\<close>

definition two_digit_fraction :: "string \<Rightarrow> bool" where
  "two_digit_fraction str =
     (case rev str of
        z # d2 # d1 # dot # _ \<Rightarrow> z = CHR ''Z'' \<and> is_digit d2 \<and> is_digit d1 \<and> dot = CHR ''.''
      | _ \<Rightarrow> False)"

text \<open>
  The seconds field as the formatter writes it at level 6: the whole seconds in two
  digits; then, unless the milliseconds are zero, a point and the milliseconds in
  three digits without their trailing zeros.
\<close>

definition pad2 :: "nat \<Rightarrow> string" where
  "pad2 n = [digit_char (n div 10), digit_char n]"

definition fraction_digits :: "nat \<Rightarrow> string" where
  "fraction_digits ms =
     strip_zeros [digit_char (ms div 100), digit_char (ms div 10), digit_char ms]"

definition seconds_text :: "nat \<Rightarrow> nat \<Rightarrow> string" where
  "seconds_text s ms = pad2 s @ (if ms = 0 then [] else ''.'' @ fraction_digits ms)"

section \<open>Properties\<close>

subsection \<open>The equations are the switch of the source\<close>

text \<open>The classification, shape by shape.\<close>

lemma dataTypeOf_simps [simp]:
  "dataTypeOf (JNumber n) = Inr (if strict_equal (Math_round n) n then ''i4'' else ''double'')"
  "dataTypeOf JNull = Inl TypeError"
  "dataTypeOf JUndefined = Inr ''undefined''"
  "dataTypeOf (JBool b) = Inr ''boolean''"
  "dataTypeOf (JBigInt i) = Inr ''bigint''"
  "dataTypeOf (JString str) = Inr ''string''"
  "dataTypeOf JSymbol = Inr ''symbol''"
  "dataTypeOf (JFunction f src) = Inr ''function''"
  "dataTypeOf (JDate d) = Inr ''date''"
  "dataTypeOf (JArray xs) = Inr ''array''"
  "dataTypeOf (JObject ms) =
     Inr (case object_constructor ms of
            DateCtor \<Rightarrow> ''date'' | ArrayCtor \<Rightarrow> ''array'' | OtherFunction \<Rightarrow> ''struct'')"
  by (simp_all add: dataTypeOf_def split: fident.split)

lemma getParamXML_dispatch:
  "getParamXML data =
     (case dataTypeOf data of
        Inl e \<Rightarrow> Inl e
      | Inr type \<Rightarrow>
          if type = ''date'' then toDateXML_value data
          else if type = ''array'' then toArrayXML_value data
          else if type = ''struct'' then toStructXML (members data)
          else if type = ''boolean'' then Inr (toBooleanXML data)
          else toValueXML type data)"
  by (cases data) (simp_all add: toArrayXML_def toStructXML_def split: fident.split)

text \<open>
  An object is rendered by \<^verbatim>\<open>toStructXML\<close> exactly when its \<^verbatim>\<open>constructor\<close> is
  neither Date nor Array.
\<close>

lemma getParamXML_struct:
  "object_constructor ms = OtherFunction \<Longrightarrow> getParamXML (JObject ms) = toStructXML ms"
  by (simp add: toStructXML_def)

subsection \<open>The loops, when every element renders\<close>

lemma toArrayXML_loop_eq:
  "list_all2 (\<lambda>x s. getParamXML x = Inr s) xs ss \<Longrightarrow>
   toArrayXML_loop xs acc = Inr (acc @ concat (map (\<lambda>s. ''<value>'' @ s @ ''</value>\<newline>'') ss))"
  by (induction xs ss arbitrary: acc rule: list_all2_induct) simp_all

lemma toStructXML_loop_eq:
  "list_all2 (\<lambda>m s. getParamXML (snd m) = Inr s) ms ss \<Longrightarrow>
   toStructXML_loop ms acc =
     Inr (acc @ concat (map2 (\<lambda>m s. ''<member>\<newline>'' @ ''<name>'' @ fst m @ ''</name>\<newline>''
                                  @ ''<value>'' @ s @ ''</value>\<newline>'' @ ''</member>\<newline>'') ms ss))"
proof (induction ms ss arbitrary: acc rule: list_all2_induct)
  case Nil
  then show ?case by simp
next
  case (Cons m ms s ss)
  then show ?case by (cases m) simp
qed

lemma xml_loop_eq:
  "list_all2 (\<lambda>p s. getParamXML p = Inr s) ps ss \<Longrightarrow>
   xml_loop fault ps acc =
     Inr (acc @ concat (map (\<lambda>s. if fault then ''<value>'' @ s @ ''</value>\<newline>''
                                 else ''<param>\<newline>'' @ ''<value>'' @ s @ ''</value>\<newline>'' @ ''</param>\<newline>'') ss))"
  by (induction ps ss arbitrary: acc rule: list_all2_induct) simp_all

lemma xml_eq:
  assumes "list_all2 (\<lambda>p s. getParamXML p = Inr s) (params m) ss"
  shows "xml m =
     Inr (xml_decl
          @ (if not_string (method_name m) then ''<methodResponse>\<newline>''
             else ''<methodCall>\<newline>'' @ ''<methodName>'' @ the (method_name m) @ ''</methodName>\<newline>'')
          @ body_text (is_fault m) ss
          @ (if not_string (method_name m) then ''</methodResponse>'' else ''</methodCall>''))"
  using xml_loop_eq [OF assms] by (simp add: xml_def body_text_def Let_def)

subsection \<open>Numbers\<close>

text \<open>
  A finite number is left unchanged by rounding exactly when it is a whole number.
\<close>

lemma round_fixed_iff:
  "strict_equal (Math_round (Dec m k)) (Dec m k) = (m mod 10 ^ k = 0)"
proof -
  define p :: int where "p = 10 ^ k"
  have p: "0 < p" by (simp add: p_def)
  show ?thesis
  proof (cases "m mod p = 0")
    case True
    then obtain q where q: "m = q * p" by (metis mod_eq_0_iff_dvd dvdE mult.commute)
    have "(2 * m + p) div (2 * p) = q"
    proof -
      have "2 * m + p = p + q * (2 * p)" by (simp add: q)
      moreover have "(p + q * (2 * p)) div (2 * p) = q" using p by simp
      ultimately show ?thesis by (simp only:)
    qed
    with True q show ?thesis by (simp add: p_def)
  next
    case False
    then have "\<And>r. r * p \<noteq> m" by auto
    with False show ?thesis by (simp add: p_def)
  qed
qed

text \<open>
  Claim C3. A number is classified \<^verbatim>\<open>i4\<close> exactly when it equals its own rounding to
  the nearest integer, and \<^verbatim>\<open>double\<close> otherwise; the tag of the rendered element is
  the classification. For a finite number the test holds exactly when the number is
  whole. \<^verbatim>\<open>NaN\<close> equals nothing and is a \<^verbatim>\<open>double\<close>; an infinity is its own rounding
  and is an \<^verbatim>\<open>i4\<close>.
\<close>

theorem number_classification:
  "dataTypeOf (JNumber n) = Inr (if strict_equal (Math_round n) n then ''i4'' else ''double'')
   \<and> getParamXML (JNumber n) =
       Inr (if strict_equal (Math_round n) n then ''<i4>'' @ Number_toString n @ ''</i4>''
            else ''<double>'' @ Number_toString n @ ''</double>'')
   \<and> strict_equal (Math_round (Dec m k)) (Dec m k) = (m mod 10 ^ k = 0)"
proof (intro conjI)
  show "dataTypeOf (JNumber n) = Inr (if strict_equal (Math_round n) n then ''i4'' else ''double'')"
    by simp
  show "getParamXML (JNumber n) =
       Inr (if strict_equal (Math_round n) n then ''<i4>'' @ Number_toString n @ ''</i4>''
            else ''<double>'' @ Number_toString n @ ''</double>'')"
    by (simp add: toValueXML_def)
  show "strict_equal (Math_round (Dec m k)) (Dec m k) = (m mod 10 ^ k = 0)"
    by (rule round_fixed_iff)
qed

subsection \<open>Booleans\<close>

text \<open>
  Claim C9. A boolean is classified \<^verbatim>\<open>boolean\<close>; \<^verbatim>\<open>true\<close> renders as
  \<^verbatim>\<open><boolean>1</boolean>\<close> and \<^verbatim>\<open>false\<close> as \<^verbatim>\<open><boolean>0</boolean>\<close>, under the one tag.
\<close>

theorem boolean_rendering:
  "dataTypeOf (JBool b) = Inr ''boolean''
   \<and> getParamXML (JBool True) = Inr ''<boolean>1</boolean>''
   \<and> getParamXML (JBool False) = Inr ''<boolean>0</boolean>''"
  by (simp add: toBooleanXML_def show_nat.simps pos_toString_def digit_char_def)

subsection \<open>Arrays\<close>

text \<open>
  Claim C7. When the elements of an array render to the texts \<open>ss\<close>, the array renders
  as \<^verbatim>\<open><array><data>\<close>, one \<^verbatim>\<open><value>...</value>\<close> per element in the order of the
  elements, and \<^verbatim>\<open></data></array>\<close>; the empty array has no \<^verbatim>\<open><value>\<close> between the
  opening and the closing of \<^verbatim>\<open><data>\<close>.
\<close>

theorem array_rendering:
  "(list_all2 (\<lambda>x s. getParamXML x = Inr s) xs ss \<longrightarrow>
      getParamXML (JArray xs) =
        Inr (''<array><data>\<newline>''
             @ concat (map (\<lambda>s. ''<value>'' @ s @ ''</value>\<newline>'') ss)
             @ ''</data></array>\<newline>''))
   \<and> getParamXML (JArray []) = Inr (''<array><data>\<newline>'' @ ''</data></array>\<newline>'')"
  by (simp add: toArrayXML_loop_eq)

theorem array_rendering_witness:
  "list_all2 (\<lambda>x s. getParamXML x = Inr s)
     [JNumber (Dec 1 0), JNumber (Dec 2 0), JNumber (Dec 3 0)]
     [''<i4>1</i4>'', ''<i4>2</i4>'', ''<i4>3</i4>'']
   \<and> getParamXML (JArray [JNumber (Dec 1 0), JNumber (Dec 2 0), JNumber (Dec 3 0)]) =
       Inr ''<array><data>\<newline><value><i4>1</i4></value>\<newline><value><i4>2</i4></value>\<newline><value><i4>3</i4></value>\<newline></data></array>\<newline>''"
  using array_rendering [of "[JNumber (Dec 1 0), JNumber (Dec 2 0), JNumber (Dec 3 0)]"
      "[''<i4>1</i4>'', ''<i4>2</i4>'', ''<i4>3</i4>'']"]
  by (simp add: toValueXML_def pos_toString_def show_nat.simps digit_char_def)

subsection \<open>Strings and keys\<close>

text \<open>
  Claim C8. A string is emitted as it is between \<^verbatim>\<open><string>\<close> and \<^verbatim>\<open></string>\<close>, and
  \<^verbatim>\<open>toStructXML\<close> emits the key of every member as it is between \<^verbatim>\<open><name>\<close> and
  \<^verbatim>\<open></name>\<close>: no character is replaced, whatever the text holds. \<^verbatim>\<open>toStructXML\<close> is
  what renders every object classified \<^verbatim>\<open>struct\<close>.
\<close>

theorem text_verbatim:
  "getParamXML (JString s) = Inr (''<string>'' @ s @ ''</string>'')
   \<and> (list_all2 (\<lambda>m r. getParamXML (snd m) = Inr r) ms rs \<longrightarrow>
        toStructXML ms =
          Inr (''<struct>\<newline>''
               @ concat (map2 (\<lambda>m r. ''<member>\<newline>'' @ ''<name>'' @ fst m @ ''</name>\<newline>''
                                     @ ''<value>'' @ r @ ''</value>\<newline>'' @ ''</member>\<newline>'') ms rs)
               @ ''</struct>\<newline>''))
   \<and> (dataTypeOf (JObject ms) = Inr ''struct'' \<longrightarrow> getParamXML (JObject ms) = toStructXML ms)"
proof (intro conjI impI)
  show "getParamXML (JString s) = Inr (''<string>'' @ s @ ''</string>'')"
    by (simp add: toValueXML_def)
next
  assume "list_all2 (\<lambda>m r. getParamXML (snd m) = Inr r) ms rs"
  from toStructXML_loop_eq [OF this]
  show "toStructXML ms =
          Inr (''<struct>\<newline>''
               @ concat (map2 (\<lambda>m r. ''<member>\<newline>'' @ ''<name>'' @ fst m @ ''</name>\<newline>''
                                     @ ''<value>'' @ r @ ''</value>\<newline>'' @ ''</member>\<newline>'') ms rs)
               @ ''</struct>\<newline>'')"
    by (simp add: toStructXML_def)
next
  assume "dataTypeOf (JObject ms) = Inr ''struct''"
  then have "object_constructor ms = OtherFunction"
    by (simp split: fident.splits)
  then show "getParamXML (JObject ms) = toStructXML ms"
    by (rule getParamXML_struct)
qed

theorem text_verbatim_witness:
  "list_all2 (\<lambda>m r. getParamXML (snd m) = Inr r)
     [(''<k&>'', JString ''1 < 2 & 3'')] [''<string>1 < 2 & 3</string>'']
   \<and> dataTypeOf (JObject [(''<k&>'', JString ''1 < 2 & 3'')]) = Inr ''struct''
   \<and> getParamXML (JString ''1 < 2 & 3'') = Inr ''<string>1 < 2 & 3</string>''
   \<and> getParamXML (JObject [(''<k&>'', JString ''1 < 2 & 3'')]) =
       Inr ''<struct>\<newline><member>\<newline><name><k&></name>\<newline><value><string>1 < 2 & 3</string></value>\<newline></member>\<newline></struct>\<newline>''"
proof -
  have c: "object_constructor [(''<k&>'', JString ''1 < 2 & 3'')] = OtherFunction"
    by (simp add: object_constructor_def)
  have h1: "list_all2 (\<lambda>m r. getParamXML (snd m) = Inr r)
     [(''<k&>'', JString ''1 < 2 & 3'')] [''<string>1 < 2 & 3</string>'']"
    by (simp add: toValueXML_def)
  have h2: "dataTypeOf (JObject [(''<k&>'', JString ''1 < 2 & 3'')]) = Inr ''struct''"
    by (simp add: c)
  note t = text_verbatim [of "''1 < 2 & 3''" "[(''<k&>'', JString ''1 < 2 & 3'')]"
      "[''<string>1 < 2 & 3</string>'']"]
  from t have s: "getParamXML (JString ''1 < 2 & 3'') = Inr (''<string>'' @ ''1 < 2 & 3'' @ ''</string>'')"
    by (rule conjunct1)
  from t h1 have m: "toStructXML [(''<k&>'', JString ''1 < 2 & 3'')] =
       Inr ''<struct>\<newline><member>\<newline><name><k&></name>\<newline><value><string>1 < 2 & 3</string></value>\<newline></member>\<newline></struct>\<newline>''"
    by simp
  from t h2 have g: "getParamXML (JObject [(''<k&>'', JString ''1 < 2 & 3'')])
       = toStructXML [(''<k&>'', JString ''1 < 2 & 3'')]"
    by blast
  from s have s': "getParamXML (JString ''1 < 2 & 3'') = Inr ''<string>1 < 2 & 3</string>''"
    by simp
  from h1 h2 s' g m show ?thesis by (simp only: simp_thms)
qed

subsection \<open>The envelope\<close>

text \<open>
  Claim C6. With \<^verbatim>\<open>is_fault\<close> set and one value given, the document holds the one
  \<^verbatim>\<open><value>...</value>\<close> directly between \<^verbatim>\<open><fault>\<close> and \<^verbatim>\<open></fault>\<close>, without
  \<^verbatim>\<open><param>\<close> and without \<^verbatim>\<open><params>\<close>; with \<^verbatim>\<open>is_fault\<close> unset, every value
  is in a \<^verbatim>\<open><param>\<close> of its own between \<^verbatim>\<open><params>\<close> and \<^verbatim>\<open></params>\<close>.
\<close>

theorem fault_and_params_envelope:
  "(is_fault m \<and> params m = [v] \<and> getParamXML v = Inr s \<longrightarrow>
      xml m =
        Inr (xml_decl
             @ (if not_string (method_name m) then ''<methodResponse>\<newline>''
                else ''<methodCall>\<newline>'' @ ''<methodName>'' @ the (method_name m) @ ''</methodName>\<newline>'')
             @ ''<fault>\<newline>'' @ ''<value>'' @ s @ ''</value>\<newline>'' @ ''</fault>\<newline>''
             @ (if not_string (method_name m) then ''</methodResponse>'' else ''</methodCall>'')))
   \<and> (\<not> is_fault m \<and> list_all2 (\<lambda>p s. getParamXML p = Inr s) (params m) ss \<longrightarrow>
      xml m =
        Inr (xml_decl
             @ (if not_string (method_name m) then ''<methodResponse>\<newline>''
                else ''<methodCall>\<newline>'' @ ''<methodName>'' @ the (method_name m) @ ''</methodName>\<newline>'')
             @ ''<params>\<newline>''
             @ concat (map (\<lambda>s. ''<param>\<newline>'' @ ''<value>'' @ s @ ''</value>\<newline>'' @ ''</param>\<newline>'') ss)
             @ ''</params>\<newline>''
             @ (if not_string (method_name m) then ''</methodResponse>'' else ''</methodCall>'')))"
proof (intro conjI impI)
  assume a: "is_fault m \<and> params m = [v] \<and> getParamXML v = Inr s"
  then have "list_all2 (\<lambda>p s. getParamXML p = Inr s) (params m) [s]" by simp
  from xml_eq [OF this] a
  show "xml m =
        Inr (xml_decl
             @ (if not_string (method_name m) then ''<methodResponse>\<newline>''
                else ''<methodCall>\<newline>'' @ ''<methodName>'' @ the (method_name m) @ ''</methodName>\<newline>'')
             @ ''<fault>\<newline>'' @ ''<value>'' @ s @ ''</value>\<newline>'' @ ''</fault>\<newline>''
             @ (if not_string (method_name m) then ''</methodResponse>'' else ''</methodCall>''))"
    by (simp add: body_text_def)
next
  assume a: "\<not> is_fault m \<and> list_all2 (\<lambda>p s. getParamXML p = Inr s) (params m) ss"
  then have "list_all2 (\<lambda>p s. getParamXML p = Inr s) (params m) ss" by simp
  from xml_eq [OF this] a
  show "xml m =
        Inr (xml_decl
             @ (if not_string (method_name m) then ''<methodResponse>\<newline>''
                else ''<methodCall>\<newline>'' @ ''<methodName>'' @ the (method_name m) @ ''</methodName>\<newline>'')
             @ ''<params>\<newline>''
             @ concat (map (\<lambda>s. ''<param>\<newline>'' @ ''<value>'' @ s @ ''</value>\<newline>'' @ ''</param>\<newline>'') ss)
             @ ''</params>\<newline>''
             @ (if not_string (method_name m) then ''</methodResponse>'' else ''</methodCall>''))"
    by (simp add: body_text_def)
qed

theorem fault_and_params_envelope_witness:
  "xml \<lparr>method_name = None, params = [JString ''Too many parameters.''], is_fault = True\<rparr> =
     Inr (xml_decl @ ''<methodResponse>\<newline><fault>\<newline><value><string>Too many parameters.</string></value>\<newline></fault>\<newline></methodResponse>'')
   \<and> xml \<lparr>method_name = Some ''test.echo'', params = [JString ''one'', JString ''two''], is_fault = False\<rparr> =
     Inr (xml_decl @ ''<methodCall>\<newline><methodName>test.echo</methodName>\<newline><params>\<newline><param>\<newline><value><string>one</string></value>\<newline></param>\<newline><param>\<newline><value><string>two</string></value>\<newline></param>\<newline></params>\<newline></methodCall>'')"
  using fault_and_params_envelope
      [of "\<lparr>method_name = None, params = [JString ''Too many parameters.''], is_fault = True\<rparr>"
          "JString ''Too many parameters.''" "''<string>Too many parameters.</string>''" "[]"]
    fault_and_params_envelope
      [of "\<lparr>method_name = Some ''test.echo'', params = [JString ''one'', JString ''two''], is_fault = False\<rparr>"
          "JNull" "[]" "[''<string>one</string>'', ''<string>two</string>'']"]
  by (simp add: toValueXML_def not_string_def)




subsection \<open>Which values render\<close>








subsection \<open>The offset of the date formatter\<close>

text \<open>
  \<open>offset_match\<close> finds a match exactly in the texts that hold a sign, two digits, a
  colon and two digits in a row.
\<close>

lemma match_here_Some_iff:
  "(match_here s \<noteq> None) =
     (\<exists>sg h1 h2 m1 m2 post. s = [sg, h1, h2, CHR '':'', m1, m2] @ post
        \<and> (sg = CHR ''-'' \<or> sg = CHR ''+'') \<and> is_digit h1 \<and> is_digit h2
        \<and> is_digit m1 \<and> is_digit m2)"
  by (cases s rule: match_here.cases) auto

lemma offset_match_None_iff:
  "(offset_match s = None) =
     (\<nexists>pre sg h1 h2 m1 m2 post. s = pre @ [sg, h1, h2, CHR '':'', m1, m2] @ post
        \<and> (sg = CHR ''-'' \<or> sg = CHR ''+'') \<and> is_digit h1 \<and> is_digit h2
        \<and> is_digit m1 \<and> is_digit m2)"
proof (induction s)
  case Nil
  then show ?case by simp
next
  case (Cons c cs)
  show ?case
  proof (cases "match_here (c # cs)")
    case (Some d)
    then have "match_here (c # cs) \<noteq> None" by simp
    then obtain sg h1 h2 m1 m2 post where
      "c # cs = [] @ [sg, h1, h2, CHR '':'', m1, m2] @ post
        \<and> (sg = CHR ''-'' \<or> sg = CHR ''+'') \<and> is_digit h1 \<and> is_digit h2
        \<and> is_digit m1 \<and> is_digit m2"
      unfolding match_here_Some_iff by auto
    then have "\<exists>pre sg h1 h2 m1 m2 post. c # cs = pre @ [sg, h1, h2, CHR '':'', m1, m2] @ post
        \<and> (sg = CHR ''-'' \<or> sg = CHR ''+'') \<and> is_digit h1 \<and> is_digit h2
        \<and> is_digit m1 \<and> is_digit m2" by blast
    with Some show ?thesis by simp
  next
    case None
    have "(\<exists>pre sg h1 h2 m1 m2 post. c # cs = pre @ [sg, h1, h2, CHR '':'', m1, m2] @ post
        \<and> (sg = CHR ''-'' \<or> sg = CHR ''+'') \<and> is_digit h1 \<and> is_digit h2
        \<and> is_digit m1 \<and> is_digit m2)
      = (\<exists>pre sg h1 h2 m1 m2 post. cs = pre @ [sg, h1, h2, CHR '':'', m1, m2] @ post
        \<and> (sg = CHR ''-'' \<or> sg = CHR ''+'') \<and> is_digit h1 \<and> is_digit h2
        \<and> is_digit m1 \<and> is_digit m2)" (is "?L = ?R")
    proof
      assume ?L
      then obtain pre sg h1 h2 m1 m2 post where
        e: "c # cs = pre @ [sg, h1, h2, CHR '':'', m1, m2] @ post"
        and p: "(sg = CHR ''-'' \<or> sg = CHR ''+'') \<and> is_digit h1 \<and> is_digit h2
        \<and> is_digit m1 \<and> is_digit m2" by blast
      show ?R
      proof (cases pre)
        case Nil
        with e p have "match_here (c # cs) \<noteq> None"
          unfolding match_here_Some_iff by auto
        with None show ?thesis by simp
      next
        case (Cons a pre')
        with e have "cs = pre' @ [sg, h1, h2, CHR '':'', m1, m2] @ post" by simp
        with p show ?thesis by blast
      qed
    next
      assume ?R
      then obtain pre sg h1 h2 m1 m2 post where
        e: "cs = pre @ [sg, h1, h2, CHR '':'', m1, m2] @ post"
        and p: "(sg = CHR ''-'' \<or> sg = CHR ''+'') \<and> is_digit h1 \<and> is_digit h2
        \<and> is_digit m1 \<and> is_digit m2" by blast
      from e have "c # cs = (c # pre) @ [sg, h1, h2, CHR '':'', m1, m2] @ post" by simp
      with p show ?L by blast
    qed
    with None Cons.IH show ?thesis by simp
  qed
qed

text \<open>
  Claim C10. The formatter returns a text exactly when the offset is missing or empty
  or holds a match of the pattern; for any other offset the match is \<^verbatim>\<open>null\<close>,
  reading its groups throws, and no text is returned. The offset \<^verbatim>\<open>"Z"\<close>, given
  by the caller, is such an offset.
\<close>

theorem offset_must_match:
  "(\<not> not_string off \<and> offset_match (the off) = None \<longrightarrow>
      dateToISO8601 d f off = Inl TypeError)
   \<and> (not_string off \<or> offset_match (the off) \<noteq> None \<longrightarrow>
      (\<exists>s. dateToISO8601 d f off = Inr s))
   \<and> dateToISO8601 d f (Some ''Z'') = Inl TypeError"
  by (auto simp add: dateToISO8601_def Let_def not_string_def split: option.splits prod.splits)

theorem offset_must_match_witness:
  "dateToISO8601 (Some 869080830450) None (Some ''GMT'') = Inl TypeError
   \<and> (\<exists>s. dateToISO8601 (Some 869080830450) None (Some ''+01:00'') = Inr s)
   \<and> (\<exists>s. dateToISO8601 (Some 869080830450) None None = Inr s)
   \<and> dateToISO8601 (Some 869080830450) None (Some ''Z'') = Inl TypeError"
  using offset_must_match [of "Some ''GMT''" "Some 869080830450" None]
    offset_must_match [of "Some ''+01:00''" "Some 869080830450" None]
    offset_must_match [of "None" "Some 869080830450" None]
  by (simp add: not_string_def is_digit_def)

subsection \<open>Digits\<close>

lemma show_nat_lt10: "n < 10 \<Longrightarrow> show_nat n = [digit_char n]"
  by (subst show_nat.simps) simp

lemma show_nat_ge10: "10 \<le> n \<Longrightarrow> show_nat n = show_nat (n div 10) @ [digit_char (n mod 10)]"
  by (subst show_nat.simps) simp

lemma digit_char_mod [simp]: "digit_char (n mod 10) = digit_char n"
  by (simp add: digit_char_def)

lemma show_nat_lt100: "10 \<le> n \<Longrightarrow> n < 100 \<Longrightarrow> show_nat n = [digit_char (n div 10), digit_char n]"
  by (simp add: show_nat_ge10 show_nat_lt10)

lemma show_nat_lt1000:
  "100 \<le> n \<Longrightarrow> n < 1000 \<Longrightarrow>
   show_nat n = [digit_char (n div 100), digit_char (n div 10), digit_char n]"
proof -
  assume a: "100 \<le> n" "n < 1000"
  then have "10 \<le> n div 10" "n div 10 < 100" by auto
  then have "show_nat (n div 10) = [digit_char (n div 10 div 10), digit_char (n div 10)]"
    by (rule show_nat_lt100)
  moreover have "n div 10 div 10 = n div 100" by (simp add: div_mult2_eq [symmetric])
  ultimately show ?thesis using a by (simp add: show_nat_ge10)
qed

lemma digit_cases:
  "n mod 10 = 0 \<or> n mod 10 = 1 \<or> n mod 10 = 2 \<or> n mod 10 = 3 \<or> n mod 10 = 4 \<or> n mod 10 = 5
   \<or> n mod 10 = 6 \<or> n mod 10 = 7 \<or> n mod 10 = 8 \<or> n mod 10 = (9::nat)"
  by arith

lemma is_digit_digit_char [simp]: "is_digit (digit_char n)"
  using digit_cases [of n] by (auto simp: digit_char_def is_digit_def)

lemma digit_val_digit_char [simp]: "digit_val (digit_char n) = n mod 10"
  using digit_cases [of n] by (auto simp: digit_char_def digit_val_def)

lemma digit_char_eq_0 [simp]: "(digit_char n = CHR ''0'') = (n mod 10 = 0)"
  using digit_cases [of n] by (auto simp: digit_char_def)

lemma not_digit_point [simp]: "\<not> is_digit (CHR ''.'')"
  by (simp add: is_digit_def)


lemma length_show_nat_small: "n < 1000 \<Longrightarrow> length (show_nat n) \<le> 3"
proof -
  assume a: "n < 1000"
  consider "n < 10" | "10 \<le> n" "n < 100" | "100 \<le> n" by linarith
  then show ?thesis
  proof cases
    case 1 then show ?thesis by (simp add: show_nat_lt10)
  next
    case 2 then show ?thesis by (simp add: show_nat_lt100)
  next
    case 3 with a show ?thesis by (simp add: show_nat_lt1000)
  qed
qed

lemma Number_toString_small:
  assumes "n < 1000"
  shows "Number_toString (Dec (int n) 0) = show_nat n"
proof (cases "n = 0")
  case True
  then show ?thesis by (simp add: show_nat_lt10 digit_char_def)
next
  case False
  with length_show_nat_small [OF assms] show ?thesis
    by (simp add: pos_toString_def Let_def)
qed

lemma zeropad_small:
  assumes "n < 1000"
  shows "zeropad (Dec (int n) 0) = (if n < 10 then ''0'' else []) @ show_nat n"
  using Number_toString_small [OF assms] by (simp add: zeropad_def)

text \<open>The text handed to \<^verbatim>\<open>Number\<close>: the seconds, a point, the milliseconds in three digits.\<close>

lemma millis_three_digits:
  assumes "ms < 1000"
  shows "(if num_lt (Dec (int ms) 0) (Dec 100 0) then ''0'' else []) @ zeropad (Dec (int ms) 0)
         = [digit_char (ms div 100), digit_char (ms div 10), digit_char ms]"
proof -
  consider "ms < 10" | "10 \<le> ms" "ms < 100" | "100 \<le> ms" by linarith
  then show ?thesis
  proof cases
    case 1 then show ?thesis
      using assms by (simp add: zeropad_small show_nat_lt10 digit_char_def)
  next
    case 2 then show ?thesis
      using assms by (simp add: zeropad_small show_nat_lt100 digit_char_def)
  next
    case 3 then show ?thesis
      using assms by (simp add: zeropad_small show_nat_lt1000)
  qed
qed

lemma digits_val_snoc: "digits_val (ds @ [c]) = 10 * digits_val ds + digit_val c"
  by (simp add: digits_val_def)

lemma show_nat_small_digits:
  assumes "s < 100"
  shows "list_all is_digit (show_nat s) \<and> show_nat s \<noteq> [] \<and> digits_val (show_nat s) = s"
proof (cases "s < 10")
  case True
  then show ?thesis by (simp add: show_nat_lt10 digits_val_def)
next
  case False
  with assms show ?thesis by (simp add: show_nat_lt100 digits_val_def)
qed

lemma Number_seconds:
  assumes "s < 100" and "ms < 1000"
  shows "Number (show_nat s @ ''.'' @ [digit_char (ms div 100), digit_char (ms div 10), digit_char ms])
         = Dec (int (s * 1000 + ms)) 3"
proof -
  from show_nat_small_digits [OF assms(1)]
  have d: "list_all is_digit (show_nat s)" and v: "digits_val (show_nat s) = s" by simp_all
  from d have tw: "takeWhile is_digit (show_nat s @ ''.'' @ [digit_char (ms div 100), digit_char (ms div 10), digit_char ms]) = show_nat s"
    by (simp add: takeWhile_append2 list_all_iff takeWhile_tail)
  from d have dw: "dropWhile is_digit (show_nat s @ ''.'' @ [digit_char (ms div 100), digit_char (ms div 10), digit_char ms]) = ''.'' @ [digit_char (ms div 100), digit_char (ms div 10), digit_char ms]"
    by (simp add: dropWhile_append2 list_all_iff dropWhile_append3)
  have e: "digits_val (show_nat s @ [digit_char (ms div 100), digit_char (ms div 10), digit_char ms])
        = 10 * (10 * (10 * digits_val (show_nat s) + digit_val (digit_char (ms div 100)))
                + digit_val (digit_char (ms div 10))) + digit_val (digit_char ms)"
    using digits_val_snoc [of "show_nat s @ [digit_char (ms div 100), digit_char (ms div 10)]" "digit_char ms"]
      digits_val_snoc [of "show_nat s @ [digit_char (ms div 100)]" "digit_char (ms div 10)"]
      digits_val_snoc [of "show_nat s" "digit_char (ms div 100)"]
    by (simp del: digit_val_digit_char)
  have a: "digit_val (digit_char (ms div 100)) = ms div 100" using assms(2) by simp
  have b: "10 * digit_val (digit_char (ms div 10)) + digit_val (digit_char ms) = ms mod 100"
    using mod_mult2_eq [of ms 10 10] by simp
  have c: "100 * (ms div 100) + ms mod 100 = ms" by simp
  have dv: "digits_val (show_nat s @ [digit_char (ms div 100), digit_char (ms div 10), digit_char ms]) = s * 1000 + ms"
  proof -
    have lin: "\<And>A B C S M R :: nat. 10 * B + C = R \<Longrightarrow> 100 * A + R = M \<Longrightarrow>
                10 * (10 * (10 * S + A) + B) + C = S * 1000 + M"
      by arith
    show ?thesis unfolding e a v by (rule lin [OF b c])
  qed
  show ?thesis
    unfolding Number_def Let_def tw dw using dv by simp
qed


lemma strip_zeros3:
  "strip_zeros [x, y, z] =
     (if z \<noteq> CHR ''0'' then [x, y, z] else if y \<noteq> CHR ''0'' then [x, y]
      else if x \<noteq> CHR ''0'' then [x] else [])"
  by (simp add: strip_zeros_def)

lemma digit_char_0: "digit_char 0 = CHR ''0''"
  by (simp add: digit_char_def)

lemma pad_two:
  assumes "n < 100"
  shows "replicate (2 - length (show_nat n)) (CHR ''0'') @ show_nat n
         = [digit_char (n div 10), digit_char n]"
proof (cases "n < 10")
  case True
  then show ?thesis by (simp add: show_nat_lt10 digit_char_0)
next
  case False
  with assms show ?thesis by (simp add: show_nat_lt100)
qed

lemma pad_three:
  assumes "n < 1000"
  shows "replicate (3 - length (show_nat n)) (CHR ''0'') @ show_nat n
         = [digit_char (n div 100), digit_char (n div 10), digit_char n]"
proof -
  consider "n < 10" | "10 \<le> n" "n < 100" | "100 \<le> n" by linarith
  then show ?thesis
  proof cases
    case 1 then show ?thesis by (simp add: show_nat_lt10 digit_char_0 numeral_2_eq_2)
  next
    case 2 then show ?thesis by (simp add: show_nat_lt100 digit_char_0)
  next
    case 3 with assms show ?thesis by (simp add: show_nat_lt1000)
  qed
qed

lemma norm_dec_3:
  "norm_dec m 3 =
     (if m mod 10 \<noteq> 0 then (m, 3)
      else if m div 10 mod 10 \<noteq> 0 then (m div 10, 2)
      else if m div 100 mod 10 \<noteq> 0 then (m div 100, 1)
      else (m div 1000, 0))"
proof -
  have a: "m div 10 div 10 = m div 100" by (simp add: div_mult2_eq [symmetric])
  have b: "m div 100 div 10 = m div 1000" by (simp add: div_mult2_eq [symmetric])
  show ?thesis by (simp add: numeral_3_eq_3 numeral_2_eq_2 a b)
qed

subsection \<open>The seconds at level 6\<close>

text \<open>
  The number read back from the seconds text \<^verbatim>\<open>ss.mmm\<close> is printed without the
  trailing zeros of its fraction, and without the point when the fraction is zero.
\<close>

lemma Number_toString_seconds:
  assumes "s < 100" and "ms < 1000"
  shows "Number_toString (Dec (int (s * 1000 + ms)) 3)
         = show_nat s @ (if ms = 0 then [] else ''.'' @ fraction_digits ms)"
proof -
  define m where "m = s * 1000 + ms"
  have ls: "length (show_nat s) \<le> 21" using length_show_nat_small [of s] assms(1) by simp
  have s0: "s = 0 \<Longrightarrow> show_nat s = ''0''" by (simp add: show_nat_lt10 digit_char_0)
  have m10: "m mod 10 = ms mod 10"
    unfolding m_def using mod_mult_self2 [of ms 10 "s * 100"] by (simp add: ac_simps)
  have d10: "m div 10 = s * 100 + ms div 10"
    unfolding m_def using div_mult_self2 [of 10 ms "s * 100"] by simp
  have d100: "m div 100 = s * 10 + ms div 100"
    unfolding m_def using div_mult_self2 [of 100 ms "s * 10"] by simp
  have md10: "m div 10 mod 10 = ms div 10 mod 10"
    unfolding d10 using mod_mult_self2 [of "ms div 10" 10 "s * 10"] by (simp add: ac_simps)
  have md100: "m div 100 mod 10 = ms div 100 mod 10"
    unfolding d100 using mod_mult_self2 [of "ms div 100" 10 s] by (simp add: ac_simps)
  have d1000: "m div 1000 = s" using assms(2) by (simp add: m_def)
  have m1000: "m mod 1000 = ms" using assms(2) by (simp add: m_def)
  have nt: "Number_toString (Dec (int m) 3) = (if m = 0 then ''0'' else pos_toString m 3)"
    by simp
  have m0: "(m = 0) = (s = 0 \<and> ms = 0)" by (simp add: m_def)
  consider (z) "ms = 0" | (c) "ms mod 10 \<noteq> 0"
    | (b) "ms mod 10 = 0" "ms div 10 mod 10 \<noteq> 0"
    | (a) "ms mod 10 = 0" "ms div 10 mod 10 = 0" "ms \<noteq> 0"
    by blast
  then have "Number_toString (Dec (int m) 3)
         = show_nat s @ (if ms = 0 then [] else ''.'' @ fraction_digits ms)"
  proof cases
    case z
    then have "norm_dec m 3 = (s, 0)" by (simp add: norm_dec_3 m10 md10 md100 d1000)
    with z ls s0 show ?thesis unfolding nt m0 by (simp add: pos_toString_def)
  next
    case c
    then have n: "norm_dec m 3 = (m, 3)" by (simp add: norm_dec_3 m10)
    from c have ne: "ms \<noteq> 0" by auto
    have f: "fraction_digits ms = [digit_char (ms div 100), digit_char (ms div 10), digit_char ms]"
      using c by (simp add: fraction_digits_def strip_zeros3)
    have z: "3 - length (show_nat ms) < 6" by arith
    show ?thesis
      unfolding nt m0 using ne s0 pad_three [OF assms(2)] z
      by (simp add: pos_toString_def n Let_def d1000 m1000 f)
  next
    case b
    then have n: "norm_dec m 3 = (m div 10, 2)" by (simp add: norm_dec_3 m10 md10)
    from b have ne: "ms \<noteq> 0" by auto
    have f: "fraction_digits ms = [digit_char (ms div 100), digit_char (ms div 10)]"
      using b by (simp add: fraction_digits_def strip_zeros3)
    have lt: "ms div 10 < 100" using assms(2) by simp
    have ip: "m div 10 div 100 = s" "m div 10 mod 100 = ms div 10"
      using lt by (simp_all add: d10)
    have dd: "ms div 10 div 10 = ms div 100" by (simp add: div_mult2_eq [symmetric])
    have z: "2 - length (show_nat (ms div 10)) < 6" by arith
    show ?thesis
      unfolding nt m0 using ne s0 pad_two [OF lt] z
      by (simp add: pos_toString_def n Let_def ip f dd)
  next
    case a
    have lt: "ms div 100 < 10" using assms(2) by simp
    have "ms div 100 \<noteq> 0"
    proof
      assume "ms div 100 = 0"
      then have "ms < 100" by simp
      then have "ms div 10 < 10" by simp
      with a(2) have "ms div 10 = 0" by simp
      then have "ms < 10" by simp
      with a(1) a(3) show False by simp
    qed
    with lt have nz': "ms div 100 mod 10 \<noteq> 0" by simp
    from a nz' have n: "norm_dec m 3 = (m div 100, 1)"
      by (simp add: norm_dec_3 m10 md10 md100)
    from a have ne: "ms \<noteq> 0" by auto
    have f: "fraction_digits ms = [digit_char (ms div 100)]"
      using a nz' by (simp add: fraction_digits_def strip_zeros3)
    have ip: "m div 100 div 10 = s" "m div 100 mod 10 = ms div 100"
      using lt by (simp_all add: d100)
    show ?thesis
      unfolding nt m0 using ne s0 lt
      by (simp add: pos_toString_def n Let_def ip f show_nat_lt10 digit_char_0)
  qed
  then show ?thesis by (simp only: m_def)
qed


lemma pad2_eq: "s < 100 \<Longrightarrow> pad2 s = (if s < 10 then ''0'' else []) @ show_nat s"
  by (simp add: pad2_def show_nat_lt10 show_nat_lt100 digit_char_0)

lemma seconds_field:
  assumes "s < 60" and "ms < 1000"
  shows "zeropad (Number (Number_toString (Dec (int s) 0) @ ''.''
                    @ (if num_lt (Dec (int ms) 0) (Dec 100 0) then ''0'' else [])
                    @ zeropad (Dec (int ms) 0)))
         = seconds_text s ms"
proof -
  from assms(1) have s: "s < 100" "s < 1000" by simp_all
  have "Number (Number_toString (Dec (int s) 0) @ ''.''
                    @ (if num_lt (Dec (int ms) 0) (Dec 100 0) then ''0'' else [])
                    @ zeropad (Dec (int ms) 0))
        = Dec (int (s * 1000 + ms)) 3"
    unfolding Number_toString_small [OF s(2)] millis_three_digits [OF assms(2)]
    by (rule Number_seconds [OF s(1) assms(2)])
  moreover have "num_lt (Dec (int (s * 1000 + ms)) 3) (Dec 10 0) = (s < 10)"
    using assms(2) by auto
  ultimately show ?thesis
    unfolding zeropad_def seconds_text_def pad2_eq [OF s(1)]
    using Number_toString_seconds [OF s(1) assms(2)] by simp
qed

lemma level_six_text:
  assumes "f = None \<or> f = Some (Dec 6 0)"
  shows "dateToISO8601 (Some t) f None =
     Inr (format_fields (Some t) (Dec 4 0) [] @ '':''
          @ seconds_text (nat (t div 1000 mod 60)) (nat (t mod 1000)) @ ''Z'')"
proof -
  define s where "s = nat (t div 1000 mod 60)"
  define ms where "ms = nat (t mod 1000)"
  have s: "s < 60" "int s = t div 1000 mod 60" by (simp_all add: s_def)
  have ms: "ms < 1000" "int ms = t mod 1000" by (simp_all add: ms_def)
  have lvl: "(if not_format f then Dec 6 0 else the f) = Dec 6 0"
    using assms by (auto simp: not_format_def)
  have gs: "getUTCSeconds (Some t) = Dec (int s) 0"
    by (simp add: getUTCSeconds_def field_def s)
  have gm: "getUTCMilliseconds (Some t) = Dec (int ms) 0"
    by (simp add: getUTCMilliseconds_def field_def ms)
  have six: "num_lt (Dec 1 0) (Dec 6 0)" "num_lt (Dec 2 0) (Dec 6 0)" "num_lt (Dec 3 0) (Dec 6 0)"
    "num_lt (Dec 5 0) (Dec 6 0)" by simp_all
  have four: "num_lt (Dec 1 0) (Dec 4 0)" "num_lt (Dec 2 0) (Dec 4 0)" "num_lt (Dec 3 0) (Dec 4 0)"
    "\<not> num_lt (Dec 5 0) (Dec 4 0)" "\<not> num_lt (Dec 4 0) (Dec 4 0)" by simp_all
  show ?thesis
    unfolding dateToISO8601_def format_fields_def Let_def lvl gs gm
      seconds_field [OF s(1) ms(1)] s_def [symmetric] ms_def [symmetric]
    by (simp add: not_string_def six four del: num_lt.simps Number_toString.simps)
qed


lemmas fields_eval =
  format_fields_def Let_def getUTCFullYear_def getUTCMonth_def getUTCDate_def getUTCHours_def
  getUTCMinutes_def getUTCSeconds_def getUTCMilliseconds_def field_def zeropad_def
  pos_toString_def show_nat_lt10 show_nat_ge10 digit_char_def

lemma fraction_digits_length:
  "length (fraction_digits ms) \<le> 3
   \<and> (length (fraction_digits ms) = 2) = (ms mod 10 = 0 \<and> ms div 10 mod 10 \<noteq> 0)"
  by (simp add: fraction_digits_def strip_zeros3)

text \<open>
  Claim C4, as the source has it. At 19:20:30.123 the fraction has three digits, and at
  19:20:30.000 there is no fraction at all: neither text ends in a point, two digits and
  \<^verbatim>\<open>Z\<close>.
\<close>

theorem level_six_seconds_counterexample:
  "dateToISO8601 (Some 869080830123) (Some (Dec 6 0)) None = Inr ''1997-07-16T19:20:30.123Z''
   \<and> \<not> two_digit_fraction ''1997-07-16T19:20:30.123Z''
   \<and> dateToISO8601 (Some 869080830000) (Some (Dec 6 0)) None = Inr ''1997-07-16T19:20:30Z''
   \<and> \<not> two_digit_fraction ''1997-07-16T19:20:30Z''"
proof -
  have c1: "civil 869080830123 = (1997, 7, 16)" by code_simp
  have c2: "civil 869080830000 = (1997, 7, 16)" by code_simp
  have f1: "format_fields (Some 869080830123) (Dec 4 0) [] = ''1997-07-16T19:20''"
    by (simp add: fields_eval c1)
  have f2: "format_fields (Some 869080830000) (Dec 4 0) [] = ''1997-07-16T19:20''"
    by (simp add: fields_eval c2)
  have s1: "seconds_text 30 123 = ''30.123''"
    apply (simp add: seconds_text_def)
    apply (simp add: pad2_def fraction_digits_def strip_zeros_def digit_char_def)
    done
  have s2: "seconds_text 30 0 = ''30''"
    apply (simp add: seconds_text_def)
    apply (simp add: pad2_def digit_char_def)
    done
  have "dateToISO8601 (Some 869080830123) (Some (Dec 6 0)) None = Inr ''1997-07-16T19:20:30.123Z''"
    unfolding level_six_text [of "Some (Dec 6 0)" 869080830123, simplified] f1 s1 by simp
  moreover
  have "dateToISO8601 (Some 869080830000) (Some (Dec 6 0)) None = Inr ''1997-07-16T19:20:30Z''"
    unfolding level_six_text [of "Some (Dec 6 0)" 869080830000, simplified] f2 s2 by simp
  moreover have "\<not> two_digit_fraction ''1997-07-16T19:20:30.123Z''"
    by (simp add: two_digit_fraction_def is_digit_def)
  moreover have "\<not> two_digit_fraction ''1997-07-16T19:20:30Z''"
    by (simp add: two_digit_fraction_def is_digit_def)
  ultimately show ?thesis by blast
qed

text \<open>
  Claim C4, amended. For every instant, at level 6 (given, or by default) and without an
  offset, the text is the date with hours and minutes, a colon, the seconds field and
  \<^verbatim>\<open>Z\<close>, where the seconds field is the whole seconds in two digits followed, unless
  the milliseconds are zero, by a point and the three digits of the milliseconds without
  their trailing zeros. The fraction has at most three digits, and two digits exactly when
  the milliseconds are a multiple of 10 and not of 100.
\<close>

theorem seconds_at_level_six:
  "dateToISO8601 (Some t) (Some (Dec 6 0)) None =
     Inr (format_fields (Some t) (Dec 4 0) [] @ '':''
          @ seconds_text (nat (t div 1000 mod 60)) (nat (t mod 1000)) @ ''Z'')
   \<and> dateToISO8601 (Some t) None None =
     Inr (format_fields (Some t) (Dec 4 0) [] @ '':''
          @ seconds_text (nat (t div 1000 mod 60)) (nat (t mod 1000)) @ ''Z'')
   \<and> length (fraction_digits ms) \<le> 3
   \<and> (length (fraction_digits ms) = 2) = (ms mod 10 = 0 \<and> ms div 10 mod 10 \<noteq> 0)"
  using level_six_text [of "Some (Dec 6 0)" t] level_six_text [of None t]
    fraction_digits_length [of ms]
  by simp

theorem seconds_at_level_six_witness:
  "dateToISO8601 (Some 869080830450) None None = Inr ''1997-07-16T19:20:30.45Z''
   \<and> two_digit_fraction ''1997-07-16T19:20:30.45Z''
   \<and> length (fraction_digits 450) = 2"
proof -
  have c: "civil 869080830450 = (1997, 7, 16)" by code_simp
  have f: "format_fields (Some 869080830450) (Dec 4 0) [] = ''1997-07-16T19:20''"
    by (simp add: fields_eval c)
  have s: "seconds_text 30 450 = ''30.45''"
    apply (simp add: seconds_text_def)
    apply (simp add: pad2_def fraction_digits_def strip_zeros_def digit_char_def)
    done
  have t: "two_digit_fraction ''1997-07-16T19:20:30.45Z''"
    by (simp add: two_digit_fraction_def is_digit_def)
  from seconds_at_level_six [of 869080830450 450] show ?thesis
    using t by (simp add: f s)
qed

subsection \<open>The shift by the offset\<close>

lemma format_fields_offset:
  "format_fields d f off = format_fields d f [] @ (if num_lt (Dec 3 0) f then off else [])"
  by (simp add: format_fields_def Let_def)

lemma Number_two_digits:
  "is_digit a \<Longrightarrow> is_digit b \<Longrightarrow> Number [a, b] = Dec (int (10 * digit_val a + digit_val b)) 0"
  by (simp add: Number_def digits_val_def)

lemma new_Date_int: "new_Date (Dec x 0) = (if valid_time x then Some x else None)"
  by (simp add: new_Date_def Let_def sgn_mult_abs)

text \<open>
  Without an offset the formatter writes the fields of the date it was given and, from
  level 4 on, the designator \<^verbatim>\<open>Z\<close>; \<open>format_fields d l []\<close> is the text of the fields
  alone.
\<close>

lemma no_offset_text:
  "dateToISO8601 d f None =
     Inr (format_fields d (if not_format f then Dec 6 0 else the f) []
          @ (if num_lt (Dec 3 0) (if not_format f then Dec 6 0 else the f) then ''Z'' else []))"
  by (simp add: dateToISO8601_def Let_def not_string_def format_fields_offset [of _ _ "''Z''"])

text \<open>
  Claim C5. For an offset made of a sign, two digits of hours, a colon and two digits of
  minutes, the formatter takes the fields from the instant moved by the signed number of
  minutes, hours times 60 plus minutes (an instant moved out of the range of dates is an
  invalid date), and from level 4 on puts the offset, as it was given, after the fields.
\<close>

theorem offset_shift_and_designator:
  assumes "sg = CHR ''-'' \<or> sg = CHR ''+''"
    and "is_digit h1" and "is_digit h2" and "is_digit m1" and "is_digit m2"
  shows "dateToISO8601 (Some t) f (Some [sg, h1, h2, CHR '':'', m1, m2]) =
     Inr (format_fields
            (new_Date (Dec (t + (if sg = CHR ''-'' then - 1 else 1)
                                * (int (10 * digit_val h1 + digit_val h2) * 60
                                   + int (10 * digit_val m1 + digit_val m2)) * 60000) 0))
            (if not_format f then Dec 6 0 else the f) []
          @ (if num_lt (Dec 3 0) (if not_format f then Dec 6 0 else the f)
             then [sg, h1, h2, CHR '':'', m1, m2] else []))"
proof -
  define off where "off = [sg, h1, h2, CHR '':'', m1, m2]"
  define lvl where "lvl = (if not_format f then Dec 6 0 else the f)"
  define mins where "mins = (if sg = CHR ''-'' then - 1 else 1)
                                * (int (10 * digit_val h1 + digit_val h2) * 60
                                   + int (10 * digit_val m1 + digit_val m2))"
  have m: "offset_match off = Some ([sg], [h1, h2], [m1, m2])"
    using assms by (simp add: off_def)
  have ne: "\<not> not_string (Some off)" by (simp add: not_string_def off_def)
  have "dateToISO8601 (Some t) f (Some off) =
          Inr (format_fields (new_Date (Dec (t + mins * 60000) 0)) lvl off)"
    unfolding dateToISO8601_def Let_def using ne assms
    by (simp add: m lvl_def Number_two_digits Number_of_date_def mins_def)
  also have "\<dots> = Inr (format_fields (new_Date (Dec (t + mins * 60000) 0)) lvl []
                       @ (if num_lt (Dec 3 0) lvl then off else []))"
    by (simp only: format_fields_offset [of _ _ off])
  finally show ?thesis by (simp only: off_def lvl_def mins_def)
qed

theorem offset_shift_and_designator_witness:
  "dateToISO8601 (Some 869080830450) (Some (Dec 5 0)) (Some ''+01:00'') =
     Inr ''1997-07-16T20:20:30+01:00''
   \<and> dateToISO8601 (Some 869080830450) (Some (Dec 3 0)) (Some ''-20:00'') = Inr ''1997-07-15''"
proof -
  have c1: "civil 869084430450 = (1997, 7, 16)" by code_simp
  have c2: "civil 869008830450 = (1997, 7, 15)" by code_simp
  have d: "is_digit (CHR ''0'')" "is_digit (CHR ''1'')" "is_digit (CHR ''2'')"
    by (simp_all add: is_digit_def)
  have v: "digit_val (CHR ''0'') = 0" "digit_val (CHR ''1'') = 1" "digit_val (CHR ''2'') = 2"
    by (simp_all add: digit_val_def)
  have a: "dateToISO8601 (Some 869080830450) (Some (Dec 5 0)) (Some ''+01:00'') =
     Inr ''1997-07-16T20:20:30+01:00''"
    using offset_shift_and_designator
      [of "CHR ''+''" "CHR ''0''" "CHR ''1''" "CHR ''0''" "CHR ''0''" 869080830450 "Some (Dec 5 0)"] d
    by (simp add: v new_Date_int valid_time_def not_format_def fields_eval c1)
  have b: "dateToISO8601 (Some 869080830450) (Some (Dec 3 0)) (Some ''-20:00'') = Inr ''1997-07-15''"
    using offset_shift_and_designator
      [of "CHR ''-''" "CHR ''2''" "CHR ''0''" "CHR ''0''" "CHR ''0''" 869080830450 "Some (Dec 3 0)"] d
    by (simp add: v new_Date_int valid_time_def not_format_def fields_eval c2)
  from a b show ?thesis by simp
qed

end
